theory Spec2Isabelle
  imports Main "HOL-Library.Multiset" "HOL-Library.Sublist"
begin

section \<open>Go values as the checkers see them\<close>

text \<open>
  Every checker receives its arguments as \<^verbatim>\<open>[]interface{}\<close> and inspects them with the
  \<^verbatim>\<open>reflect\<close> package. An interface value is either nil or a value with a dynamic type,
  so an argument is a \<open>gval option\<close> (\<open>None\<close> is the nil interface). The universe of
  values covers booleans, \<^verbatim>\<open>int\<close>, \<^verbatim>\<open>int64\<close>, strings, \<^verbatim>\<open>time.Time\<close>, named types over
  these (such as \<^verbatim>\<open>time.Duration\<close>), slices, arrays and maps, with elements of interface
  type where the element type says so. Floating point numbers, channels, functions,
  other structs and pointers other than the one inside a \<^verbatim>\<open>time.Time\<close> are outside the
  universe.
\<close>

datatype Kind =
  KInvalid | KBool | KInt | KInt64 | KString | KArray | KInterface | KMap | KSlice | KStruct

datatype gtype =
  TBool | TInt | TInt64 | TString | TTime | TInterface
  | TNamed string gtype
  | TSlice gtype
  | TArray nat gtype
  | TMap gtype gtype

text \<open>
  \<^verbatim>\<open>time.Location\<close> is a struct of the time package: a name, the zones, the transitions
  between them, the rule that extends them, and a cache of one zone. A nil slice and an
  empty one are told apart, and the cache holds what its pointer points to.
\<close>

record zone =
  zone_name :: string
  zone_offset :: int
  zone_isDST :: bool

record zoneTrans =
  trans_when :: int
  trans_index :: nat
  trans_isstd :: bool
  trans_isutc :: bool

record Location =
  loc_name :: string
  loc_zone :: "zone list option"
  loc_tx :: "zoneTrans list option"
  loc_extend :: string
  loc_cacheStart :: int
  loc_cacheEnd :: int
  loc_cacheZone :: "zone option"

text \<open>
  \<^verbatim>\<open>time.Time\<close>: the wall clock reading (seconds and nanoseconds), the monotonic clock
  reading when the value carries one, and the pointer to the Location, which may be nil.
  What stands for the pointer is a parameter \<open>'l\<close>: in a value that the program holds
  it is an address, and the heap gives the Location at each address. Two addresses may
  hold equal Locations: \<^verbatim>\<open>==\<close> on two times compares the addresses, and
  \<^verbatim>\<open>reflect.DeepEqual\<close> compares the Locations found there.
\<close>

datatype 'l gtime =
  Time (wsec: int) (wnsec: int) (mono: "int option") (loc: "'l option")

datatype 'l gvalue =
  VBool bool
  | VInt int
  | VInt64 int
  | VString string
  | VTime "'l gtime"
  | VNamed string "'l gvalue"
  | VSlice gtype "'l gvalue option list option"
  | VArray gtype "'l gvalue option list"
  | VMap gtype gtype "('l gvalue option \<times> 'l gvalue option) list option"

type_synonym addr = nat

type_synonym heap = "addr \<Rightarrow> Location"

type_synonym Time = "addr gtime"

type_synonym gval = "addr gvalue"

text \<open>
  A value with every Location pointer replaced by the Location that the heap holds
  there: what remains of a value when addresses do not count.
\<close>

definition deref :: "heap \<Rightarrow> gval \<Rightarrow> Location gvalue" where
  "deref h = map_gvalue h"

definition deref_interface :: "heap \<Rightarrow> gval option \<Rightarrow> Location gvalue option" where
  "deref_interface h = map_option (deref h)"

definition deref_entries ::
  "heap \<Rightarrow> (gval option \<times> gval option) list \<Rightarrow> (gval option \<times> Location gvalue option) list"
where
  "deref_entries h = map (\<lambda>(k, v). (k, deref_interface h v))"

text \<open>
  \<^verbatim>\<open>time.UTC\<close> points to the Location named UTC, whose other fields are zero, and
  \<^verbatim>\<open>time.Local\<close> to the one named Local. In the heap \<open>sample_heap\<close> address 0 holds
  Local and every other address holds a Location equal to UTC.
\<close>

definition utcLoc :: Location where
  "utcLoc =
     \<lparr>loc_name = ''UTC'', loc_zone = None, loc_tx = None, loc_extend = [],
      loc_cacheStart = 0, loc_cacheEnd = 0, loc_cacheZone = None\<rparr>"

definition localLoc :: Location where
  "localLoc = utcLoc\<lparr>loc_name := ''Local''\<rparr>"

definition sample_heap :: heap where
  "sample_heap a = (if a = 0 then localLoc else utcLoc)"

text \<open>A run-time panic ends the call; it is a result of its own.\<close>

datatype panic = IndexOutOfRange | NilPointerDereference | UnhashableType

type_synonym result = "panic + bool \<times> string"

subsection \<open>The reflect package\<close>

fun typeof :: "'l gvalue \<Rightarrow> gtype" where
  "typeof (VBool _) = TBool"
| "typeof (VInt _) = TInt"
| "typeof (VInt64 _) = TInt64"
| "typeof (VString _) = TString"
| "typeof (VTime _) = TTime"
| "typeof (VNamed n v) = TNamed n (typeof v)"
| "typeof (VSlice t _) = TSlice t"
| "typeof (VArray t es) = TArray (length es) t"
| "typeof (VMap k v _) = TMap k v"

text \<open>\<^verbatim>\<open>reflect.TypeOf\<close>: the nil interface has the nil type.\<close>

definition reflect_TypeOf :: "gval option \<Rightarrow> gtype option" where
  "reflect_TypeOf x = map_option typeof x"

fun Type_Kind :: "gtype \<Rightarrow> Kind" where
  "Type_Kind TBool = KBool"
| "Type_Kind TInt = KInt"
| "Type_Kind TInt64 = KInt64"
| "Type_Kind TString = KString"
| "Type_Kind TTime = KStruct"
| "Type_Kind TInterface = KInterface"
| "Type_Kind (TNamed _ t) = Type_Kind t"
| "Type_Kind (TSlice _) = KSlice"
| "Type_Kind (TArray _ _) = KArray"
| "Type_Kind (TMap _ _) = KMap"

text \<open>\<^verbatim>\<open>reflect.ValueOf(x).Kind()\<close>: the zero Value of a nil interface has kind Invalid.\<close>

definition Value_Kind :: "gval option \<Rightarrow> Kind" where
  "Value_Kind x = (case x of None \<Rightarrow> KInvalid | Some v \<Rightarrow> Type_Kind (typeof v))"

text \<open>\<^verbatim>\<open>Type.Elem()\<close>, which panics on a type without elements (\<open>None\<close> here).\<close>

fun Type_Elem :: "gtype \<Rightarrow> gtype option" where
  "Type_Elem (TSlice t) = Some t"
| "Type_Elem (TArray _ t) = Some t"
| "Type_Elem (TMap _ t) = Some t"
| "Type_Elem (TNamed _ t) = Type_Elem t"
| "Type_Elem _ = None"

text \<open>
  The elements that \<^verbatim>\<open>Value.Len()\<close> and \<^verbatim>\<open>Value.Index(i).Interface()\<close> enumerate on a
  slice or an array; a nil slice has none.
\<close>

fun Value_elems :: "'l gvalue \<Rightarrow> 'l gvalue option list" where
  "Value_elems (VSlice _ None) = []"
| "Value_elems (VSlice _ (Some es)) = es"
| "Value_elems (VArray _ es) = es"
| "Value_elems (VNamed _ v) = Value_elems v"
| "Value_elems _ = []"

text \<open>\<^verbatim>\<open>Value.Len()\<close> on a slice, an array, a map or a string.\<close>

fun Value_Len :: "'l gvalue \<Rightarrow> nat" where
  "Value_Len (VSlice _ None) = 0"
| "Value_Len (VSlice _ (Some es)) = length es"
| "Value_Len (VArray _ es) = length es"
| "Value_Len (VMap _ _ None) = 0"
| "Value_Len (VMap _ _ (Some m)) = length m"
| "Value_Len (VString s) = length s"
| "Value_Len (VNamed _ v) = Value_Len v"
| "Value_Len _ = 0"

subsection \<open>Printing kinds, types and numbers\<close>

fun Kind_String :: "Kind \<Rightarrow> string" where
  "Kind_String KInvalid = ''invalid''"
| "Kind_String KBool = ''bool''"
| "Kind_String KInt = ''int''"
| "Kind_String KInt64 = ''int64''"
| "Kind_String KString = ''string''"
| "Kind_String KArray = ''array''"
| "Kind_String KInterface = ''interface''"
| "Kind_String KMap = ''map''"
| "Kind_String KSlice = ''slice''"
| "Kind_String KStruct = ''struct''"

definition digit :: "nat \<Rightarrow> char" where
  "digit d = ''0123456789'' ! d"

fun itoa :: "nat \<Rightarrow> string" where
  "itoa n = (if n < 10 then [digit n] else itoa (n div 10) @ [digit (n mod 10)])"

declare itoa.simps [simp del]

fun Type_String :: "gtype \<Rightarrow> string" where
  "Type_String TBool = ''bool''"
| "Type_String TInt = ''int''"
| "Type_String TInt64 = ''int64''"
| "Type_String TString = ''string''"
| "Type_String TTime = ''time.Time''"
| "Type_String TInterface = ''interface {}''"
| "Type_String (TNamed n _) = n"
| "Type_String (TSlice t) = ''[]'' @ Type_String t"
| "Type_String (TArray n t) = ''['' @ itoa n @ '']'' @ Type_String t"
| "Type_String (TMap k v) = ''map['' @ Type_String k @ '']'' @ Type_String v"

text \<open>How \<^verbatim>\<open>fmt.Sprint\<close> prints a \<^verbatim>\<open>reflect.Type\<close> operand, nil included.\<close>

definition Sprint_Type :: "gtype option \<Rightarrow> string" where
  "Sprint_Type t = (case t of None \<Rightarrow> ''<nil>'' | Some ty \<Rightarrow> Type_String ty)"

text \<open>
  The verb \<^verbatim>\<open>%q\<close> on a kind or a type: its name in double quotes (the names of kinds and
  types hold no character that needs an escape).
\<close>

definition fmt_q :: "string \<Rightarrow> string" where
  "fmt_q s = [CHR 0x22] @ s @ [CHR 0x22]"

text \<open>\<^verbatim>\<open>Value.String()\<close>: the string itself, or a description of a value that is no string.\<close>

fun Value_String :: "gval \<Rightarrow> string" where
  "Value_String (VString s) = s"
| "Value_String (VNamed n v) =
     (if Type_Kind (typeof v) = KString then Value_String v
      else ''<'' @ n @ '' Value>'')"
| "Value_String v = ''<'' @ Type_String (typeof v) @ '' Value>''"

subsection \<open>reflect.DeepEqual\<close>

text \<open>
  Two values of different types are never deeply equal. Slices and maps compare nil with
  nil only, then their lengths, then their elements; a map looks each of its keys up in the
  other map, by \<^verbatim>\<open>==\<close>. Elements of interface type compare their dynamic values. A struct
  compares its fields: for a \<^verbatim>\<open>time.Time\<close> the two readings and the Location pointer.
\<close>

text \<open>
  Two pointers are deeply equal when they are the same pointer, or when neither is nil
  and what they point to is deeply equal; two Locations are deeply equal when all their
  fields are, which is equality of the record.
\<close>

definition deepLocationEqual :: "heap \<Rightarrow> addr option \<Rightarrow> addr option \<Rightarrow> bool" where
  "deepLocationEqual h p q =
     (if p = q then True
      else (case p of
              None \<Rightarrow> False
            | Some a \<Rightarrow> (case q of None \<Rightarrow> False | Some b \<Rightarrow> h a = h b)))"

fun deepValueEqual :: "heap \<Rightarrow> gval \<Rightarrow> gval \<Rightarrow> bool"
  and deepInterfaceEqual :: "heap \<Rightarrow> gval option \<Rightarrow> gval option \<Rightarrow> bool"
  and deepElemsEqual :: "heap \<Rightarrow> gval option list \<Rightarrow> gval option list \<Rightarrow> bool"
  and deepEntriesEqual ::
    "heap \<Rightarrow> (gval option \<times> gval option) list \<Rightarrow> (gval option \<times> gval option) list \<Rightarrow> bool"
  and deepMapIndexEqual ::
    "heap \<Rightarrow> gval option \<Rightarrow> gval option \<Rightarrow> (gval option \<times> gval option) list \<Rightarrow> bool"
where
  "deepValueEqual h (VBool x) b = (case b of VBool y \<Rightarrow> x = y | _ \<Rightarrow> False)"
| "deepValueEqual h (VInt x) b = (case b of VInt y \<Rightarrow> x = y | _ \<Rightarrow> False)"
| "deepValueEqual h (VInt64 x) b = (case b of VInt64 y \<Rightarrow> x = y | _ \<Rightarrow> False)"
| "deepValueEqual h (VString x) b = (case b of VString y \<Rightarrow> x = y | _ \<Rightarrow> False)"
| "deepValueEqual h (VTime x) b =
     (case b of
        VTime y \<Rightarrow>
          wsec x = wsec y \<and> wnsec x = wnsec y \<and> mono x = mono y
          \<and> deepLocationEqual h (loc x) (loc y)
      | _ \<Rightarrow> False)"
| "deepValueEqual h (VNamed n x) b =
     (case b of VNamed m y \<Rightarrow> n = m \<and> deepValueEqual h x y | _ \<Rightarrow> False)"
| "deepValueEqual h (VSlice t xs) b =
     (case b of
        VSlice u ys \<Rightarrow>
          t = u \<and>
          (case xs of
             None \<Rightarrow> ys = None
           | Some es \<Rightarrow> (case ys of None \<Rightarrow> False | Some fs \<Rightarrow> deepElemsEqual h es fs))
      | _ \<Rightarrow> False)"
| "deepValueEqual h (VArray t es) b =
     (case b of VArray u fs \<Rightarrow> t = u \<and> deepElemsEqual h es fs | _ \<Rightarrow> False)"
| "deepValueEqual h (VMap k v m1) b =
     (case b of
        VMap k' v' m2 \<Rightarrow>
          k = k' \<and> v = v' \<and>
          (case m1 of
             None \<Rightarrow> m2 = None
           | Some e1 \<Rightarrow>
               (case m2 of
                  None \<Rightarrow> False
                | Some e2 \<Rightarrow> length e1 = length e2 \<and> deepEntriesEqual h e1 e2))
      | _ \<Rightarrow> False)"
| "deepInterfaceEqual h None y = (y = None)"
| "deepInterfaceEqual h (Some a) y = (case y of None \<Rightarrow> False | Some b \<Rightarrow> deepValueEqual h a b)"
| "deepElemsEqual h [] ys = (ys = [])"
| "deepElemsEqual h (x # xs) ys =
     (case ys of [] \<Rightarrow> False | y # ys' \<Rightarrow> deepInterfaceEqual h x y \<and> deepElemsEqual h xs ys')"
| "deepEntriesEqual h [] m2 = True"
| "deepEntriesEqual h ((k, v1) # m1) m2 = (deepMapIndexEqual h k v1 m2 \<and> deepEntriesEqual h m1 m2)"
| "deepMapIndexEqual h k v1 [] = False"
| "deepMapIndexEqual h k v1 ((k', v2) # m2) =
     (if k' = k then deepInterfaceEqual h v1 v2 else deepMapIndexEqual h k v1 m2)"

text \<open>
  \<^verbatim>\<open>reflect.DeepEqual(x, y)\<close>: when either argument is the nil interface the answer is
  \<^verbatim>\<open>x == y\<close>; otherwise the dynamic types must agree and the values are compared.
\<close>

definition DeepEqual :: "heap \<Rightarrow> gval option \<Rightarrow> gval option \<Rightarrow> bool" where
  "DeepEqual h x y = deepInterfaceEqual h x y"

text \<open>The values that hold no map, at any depth.\<close>

fun mapfree :: "'l gvalue \<Rightarrow> bool"
  and mapfree_interface :: "'l gvalue option \<Rightarrow> bool"
  and mapfree_elems :: "'l gvalue option list \<Rightarrow> bool"
where
  "mapfree (VBool _) = True"
| "mapfree (VInt _) = True"
| "mapfree (VInt64 _) = True"
| "mapfree (VString _) = True"
| "mapfree (VTime _) = True"
| "mapfree (VNamed _ v) = mapfree v"
| "mapfree (VSlice _ None) = True"
| "mapfree (VSlice _ (Some es)) = mapfree_elems es"
| "mapfree (VArray _ es) = mapfree_elems es"
| "mapfree (VMap _ _ _) = False"
| "mapfree_interface None = True"
| "mapfree_interface (Some v) = mapfree v"
| "mapfree_elems [] = True"
| "mapfree_elems (e # es) = (mapfree_interface e \<and> mapfree_elems es)"

subsection \<open>strings.Contains\<close>

fun strings_Contains :: "string \<Rightarrow> string \<Rightarrow> bool" where
  "strings_Contains [] substr = (substr = [])"
| "strings_Contains (c # s) substr = (prefix substr (c # s) \<or> strings_Contains s substr)"

section \<open>container.go\<close>

subsection \<open>Contains and IsIn\<close>

text \<open>The loop of \<^verbatim>\<open>containsChecker.Check\<close> over the elements, leaving at the first match.\<close>

fun contains_scan :: "heap \<Rightarrow> gval option list \<Rightarrow> gval option \<Rightarrow> bool" where
  "contains_scan h [] v = False"
| "contains_scan h (e # es) v = (if DeepEqual h e v then True else contains_scan h es v)"

text \<open>
  The \<^verbatim>\<open>switch\<close> on \<^verbatim>\<open>cv.Kind()\<close>: a nil container has kind Invalid and, like every kind
  but slice, array and string, leaves the switch for the last \<^verbatim>\<open>return\<close>. In the string
  case \<^verbatim>\<open>vtype.Kind()\<close> is a method call on the nil type when the value is nil.
\<close>

definition containsChecker_Check :: "heap \<Rightarrow> gval option list \<Rightarrow> string list \<Rightarrow> result" where
  "containsChecker_Check h params names =
     (if length params < 2 then Inl IndexOutOfRange
      else
        let container = params ! 0;
            v = params ! 1;
            vtype = reflect_TypeOf v
        in (case container of
              None \<Rightarrow>
                Inr (False, ''Unsupported argument types: '' @ Kind_String KInvalid @ '' ''
                              @ Sprint_Type vtype)
            | Some cv \<Rightarrow>
                if Type_Kind (typeof cv) = KSlice \<or> Type_Kind (typeof cv) = KArray then
                  (if Type_Elem (typeof cv) \<noteq> vtype then Inr (False, '''')
                   else if contains_scan h (Value_elems cv) v then Inr (True, '''')
                   else Inr (False, ''''))
                else if Type_Kind (typeof cv) = KString then
                  (case v of
                     None \<Rightarrow> Inl NilPointerDereference
                   | Some vv \<Rightarrow>
                       if Type_Kind (typeof vv) \<noteq> KString
                       then Inr (False, ''value should have type: '' @ Sprint_Type vtype)
                       else Inr (strings_Contains (Value_String cv) (Value_String vv), ''''))
                else
                  Inr (False, ''Unsupported argument types: '' @ Kind_String (Type_Kind (typeof cv))
                                @ '' '' @ Sprint_Type vtype)))"

definition isInChecker_Check :: "heap \<Rightarrow> gval option list \<Rightarrow> string list \<Rightarrow> result" where
  "isInChecker_Check h params names =
     (if length params < 2 then Inl IndexOutOfRange
      else containsChecker_Check h [params ! 1, params ! 0] names)"

subsection \<open>SliceEquals and MapEquals\<close>

definition sliceEquals_Check :: "heap \<Rightarrow> gval option list \<Rightarrow> string list \<Rightarrow> result" where
  "sliceEquals_Check h params names =
     (if length params < 2 then Inl IndexOutOfRange
      else
        let s1 = params ! 0;
            s2 = params ! 1
        in if Value_Kind s1 \<noteq> KSlice \<or> Value_Kind s2 \<noteq> KSlice
           then Inr (False, ''Both arguments must be slices'')
           else (case s1 of
                   None \<Rightarrow> Inr (False, ''Both arguments must be slices'')
                 | Some vs1 \<Rightarrow>
                     (case s2 of
                        None \<Rightarrow> Inr (False, ''Both arguments must be slices'')
                      | Some vs2 \<Rightarrow>
                          if Value_Len vs1 \<noteq> Value_Len vs2 then Inr (False, '''')
                          else Inr (DeepEqual h s1 s2, ''''))))"

definition mapEquals_Check :: "heap \<Rightarrow> gval option list \<Rightarrow> string list \<Rightarrow> result" where
  "mapEquals_Check h params names =
     (if length params < 2 then Inl IndexOutOfRange
      else
        let s1 = params ! 0;
            s2 = params ! 1
        in if Value_Kind s1 \<noteq> KMap \<or> Value_Kind s2 \<noteq> KMap
           then Inr (False, ''Both arguments must be maps'')
           else (case s1 of
                   None \<Rightarrow> Inr (False, ''Both arguments must be maps'')
                 | Some vs1 \<Rightarrow>
                     (case s2 of
                        None \<Rightarrow> Inr (False, ''Both arguments must be maps'')
                      | Some vs2 \<Rightarrow>
                          if Value_Len vs1 \<noteq> Value_Len vs2 then Inr (False, '''')
                          else Inr (DeepEqual h s1 s2, ''''))))"

subsection \<open>SameContent\<close>

text \<open>
  The two counting maps have type \<^verbatim>\<open>map[interface{}]int\<close>. Storing under a key hashes it,
  and hashing panics on a key whose dynamic type is not comparable: a slice, a map, or
  an array of such; an array with elements of interface type is hashed element by element.
\<close>

fun comparable :: "gtype \<Rightarrow> bool" where
  "comparable (TSlice _) = False"
| "comparable (TMap _ _) = False"
| "comparable (TArray _ t) = comparable t"
| "comparable (TNamed _ t) = comparable t"
| "comparable _ = True"

fun hashable :: "gval \<Rightarrow> bool"
  and hashable_key :: "gval option \<Rightarrow> bool"
  and hashable_elems :: "gval option list \<Rightarrow> bool"
where
  "hashable (VBool _) = True"
| "hashable (VInt _) = True"
| "hashable (VInt64 _) = True"
| "hashable (VString _) = True"
| "hashable (VTime _) = True"
| "hashable (VNamed _ v) = hashable v"
| "hashable (VSlice _ _) = False"
| "hashable (VArray t es) = (comparable t \<and> hashable_elems es)"
| "hashable (VMap _ _ _) = False"
| "hashable_key None = True"
| "hashable_key (Some v) = hashable v"
| "hashable_elems [] = True"
| "hashable_elems (e # es) = (hashable_key e \<and> hashable_elems es)"

type_synonym counts = "(gval option \<times> int) list"

text \<open>\<^verbatim>\<open>m[k]++\<close> on a counting map, kept as a list of entries with distinct keys.\<close>

fun map_incr :: "counts \<Rightarrow> gval option \<Rightarrow> counts" where
  "map_incr [] k = [(k, 1)]"
| "map_incr ((k', c) # m) k = (if k' = k then (k', c + 1) # m else (k', c) # map_incr m k)"

text \<open>The counting map as the value that \<^verbatim>\<open>reflect.DeepEqual\<close> receives.\<close>

definition counts_value :: "counts \<Rightarrow> gval option" where
  "counts_value m = Some (VMap TInterface TInt (Some (map (\<lambda>(k, c). (k, Some (VInt c))) m)))"

text \<open>
  The counting loop walks both slices with one index; each turn stores the expected
  element first and the obtained element second. The lengths are equal when it starts.
\<close>

fun sameContent_loop ::
  "gval option list \<Rightarrow> gval option list \<Rightarrow> counts \<Rightarrow> counts \<Rightarrow> panic + counts \<times> counts"
where
  "sameContent_loop (e # vexp) (ob # vob) mexp mob =
     (if \<not> hashable_key e then Inl UnhashableType
      else if \<not> hashable_key ob then Inl UnhashableType
      else sameContent_loop vexp vob (map_incr mexp e) (map_incr mob ob))"
| "sameContent_loop _ _ mexp mob = Inr (mexp, mob)"

definition sameContent_Check :: "heap \<Rightarrow> gval option list \<Rightarrow> string list \<Rightarrow> result" where
  "sameContent_Check h params names =
     (if length params \<noteq> 2 then Inr (False, ''SameContent expects two slice arguments'')
      else
        let obtained = params ! 0;
            expected = params ! 1
        in (case obtained of
              None \<Rightarrow> Inl NilPointerDereference
            | Some vob \<Rightarrow>
                let tob = typeof vob in
                if Type_Kind tob \<noteq> KSlice
                then Inr (False, ''SameContent expects the obtained value to be a slice, got ''
                                   @ fmt_q (Kind_String (Type_Kind tob)))
                else
                  (case expected of
                     None \<Rightarrow> Inl NilPointerDereference
                   | Some vexp \<Rightarrow>
                       let texp = typeof vexp in
                       if Type_Kind texp \<noteq> KSlice
                       then Inr (False,
                              ''SameContent expects the expected value to be a slice, got ''
                                @ fmt_q (Kind_String (Type_Kind texp)))
                       else if texp \<noteq> tob
                       then Inr (False,
                              ''SameContent expects two slices of the same type, expected: ''
                                @ fmt_q (Type_String texp) @ '', got: ''
                                @ fmt_q (Type_String tob))
                       else if Value_Len vob \<noteq> Value_Len vexp then Inr (False, '''')
                       else
                         (case sameContent_loop (Value_elems vexp) (Value_elems vob) [] [] of
                            Inl p \<Rightarrow> Inl p
                          | Inr (mexp, mob) \<Rightarrow>
                              Inr (DeepEqual h (counts_value mob) (counts_value mexp), '''')))))"

subsection \<open>IsSorted\<close>

text \<open>
  What \<^verbatim>\<open>isSorted.Check\<close> uses of a \<^verbatim>\<open>sort.Interface\<close>: its length and its comparison
  of two indices. Go's \<^verbatim>\<open>int\<close> has 64 bits, so \<^verbatim>\<open>container.Len()-1\<close> wraps around.
\<close>

record sort_Interface =
  Len :: int
  Less :: "int \<Rightarrow> int \<Rightarrow> bool"

definition wrap64 :: "int \<Rightarrow> int" where
  "wrap64 x = (x + 2 ^ 63) mod 2 ^ 64 - 2 ^ 63"

definition Sprint_int :: "int \<Rightarrow> string" where
  "Sprint_int i = (if i < 0 then ''-'' @ itoa (nat (- i)) else itoa (nat i))"

function isSorted_loop :: "sort_Interface \<Rightarrow> int \<Rightarrow> result" where
  "isSorted_loop container i =
     (if i < wrap64 (Len container - 1) then
        (if Less container (i + 1) i
         then Inr (False, ''value is not ordered at index '' @ Sprint_int (i + 1))
         else isSorted_loop container (i + 1))
      else Inr (True, ''''))"
  by pat_completeness auto
termination
  by (relation "measure (\<lambda>(c, i). nat (wrap64 (Len c - 1) - i))") auto

declare isSorted_loop.simps [simp del]

text \<open>
  The type assertion \<^verbatim>\<open>params[0].(sort.Interface)\<close> depends on the methods that the
  program declares on the value's type; \<open>methods\<close> gives them for a value that has all
  three, and the nil interface has none.
\<close>

definition isSorted_Check ::
  "(gval \<Rightarrow> sort_Interface option) \<Rightarrow> gval option list \<Rightarrow> string list \<Rightarrow> result" where
  "isSorted_Check methods params names =
     (if length params < 1 then Inl IndexOutOfRange
      else (case params ! 0 of
              None \<Rightarrow> Inr (False, ''value object must implement `sort.Interface`'')
            | Some v \<Rightarrow>
                (case methods v of
                   None \<Rightarrow> Inr (False, ''value object must implement `sort.Interface`'')
                 | Some container \<Rightarrow> isSorted_loop container 0)))"

text \<open>
  \<^verbatim>\<open>sort.IntSlice\<close> of the standard library is a slice of \<^verbatim>\<open>int\<close> with the three methods:
  its length, and \<^verbatim>\<open>x[i] < x[j]\<close> for \<^verbatim>\<open>Less(i, j)\<close> (on indices within the slice).
\<close>

definition IntSlice_Interface :: "int list \<Rightarrow> sort_Interface" where
  "IntSlice_Interface x = \<lparr>Len = int (length x), Less = (\<lambda>i j. x ! nat i < x ! nat j)\<rparr>"

fun int_elem :: "gval option \<Rightarrow> int" where
  "int_elem (Some (VInt a)) = a"
| "int_elem _ = 0"

fun IntSlice_methods :: "gval \<Rightarrow> sort_Interface option" where
  "IntSlice_methods (VNamed n (VSlice TInt es)) =
     (if n = ''sort.IntSlice''
      then Some (IntSlice_Interface (case es of None \<Rightarrow> [] | Some xs \<Rightarrow> map int_elem xs))
      else None)"
| "IntSlice_methods _ = None"

section \<open>time.go\<close>

text \<open>
  \<^verbatim>\<open>Time.Before\<close> and \<^verbatim>\<open>Time.After\<close> compare the monotonic readings when both values
  carry one, and the wall clock readings otherwise.
\<close>

definition Before :: "Time \<Rightarrow> Time \<Rightarrow> bool" where
  "Before t u =
     (case (mono t, mono u) of
        (Some a, Some b) \<Rightarrow> a < b
      | _ \<Rightarrow> wsec t < wsec u \<or> (wsec t = wsec u \<and> wnsec t < wnsec u))"

definition After :: "Time \<Rightarrow> Time \<Rightarrow> bool" where
  "After t u =
     (case (mono t, mono u) of
        (Some a, Some b) \<Rightarrow> a > b
      | _ \<Rightarrow> wsec t > wsec u \<or> (wsec t = wsec u \<and> wnsec t > wnsec u))"

record timeBetweenChecker =
  start :: Time
  end' :: Time

definition TimeBetween :: "Time \<Rightarrow> Time \<Rightarrow> timeBetweenChecker" where
  "TimeBetween s e =
     (if Before e s then \<lparr>start = e, end' = s\<rparr> else \<lparr>start = s, end' = e\<rparr>)"

text \<open>
  The type assertion \<^verbatim>\<open>params[0].(time.Time)\<close> holds for a value whose dynamic type is
  \<^verbatim>\<open>time.Time\<close> itself. \<open>goString\<close> is the text that the verb \<^verbatim>\<open>%#v\<close> prints for a time.
\<close>

definition timeBetweenChecker_Check ::
  "(Time \<Rightarrow> string) \<Rightarrow> timeBetweenChecker \<Rightarrow> gval option list \<Rightarrow> string list \<Rightarrow> result" where
  "timeBetweenChecker_Check goString checker params names =
     (if length params < 1 then Inl IndexOutOfRange
      else (case params ! 0 of
              Some (VTime when) \<Rightarrow>
                if Before when (start checker)
                then Inr (False, ''obtained value '' @ goString when
                                   @ '' type must before start value of ''
                                   @ goString (start checker))
                else if After when (end' checker)
                then Inr (False, ''obtained value '' @ goString when
                                   @ '' type must after end value of ''
                                   @ goString (end' checker))
                else Inr (True, '''')
            | _ \<Rightarrow> Inr (False, ''obtained value type must be time.Time'')))"

text \<open>
  \<^verbatim>\<open>time.Duration\<close> is the named type over \<^verbatim>\<open>int64\<close> that counts nanoseconds; the type
  assertion \<^verbatim>\<open>x.(time.Duration)\<close> holds for no other type, \<^verbatim>\<open>int64\<close> included.
\<close>

fun assert_Duration :: "gval option \<Rightarrow> int option" where
  "assert_Duration (Some (VNamed n (VInt64 d))) = (if n = ''time.Duration'' then Some d else None)"
| "assert_Duration _ = None"

definition Nanoseconds :: "int \<Rightarrow> int" where
  "Nanoseconds d = d"

definition durationLessThanChecker_Check :: "gval option list \<Rightarrow> string list \<Rightarrow> result" where
  "durationLessThanChecker_Check params names =
     (if length params < 1 then Inl IndexOutOfRange
      else (case assert_Duration (params ! 0) of
              None \<Rightarrow> Inr (False, ''obtained value type must be time.Duration'')
            | Some obtained \<Rightarrow>
                if length params < 2 then Inl IndexOutOfRange
                else (case assert_Duration (params ! 1) of
                        None \<Rightarrow> Inr (False, ''expected value type must be time.Duration'')
                      | Some expected \<Rightarrow>
                          Inr (Nanoseconds obtained < Nanoseconds expected, ''''))))"


section \<open>Properties of reflect.DeepEqual\<close>

lemma deepLocationEqual_iff: "deepLocationEqual h p q \<longleftrightarrow> map_option h p = map_option h q"
  by (cases p; cases q) (auto simp: deepLocationEqual_def)

lemma map_gtime_eq_iff:
  "map_gtime h x = map_gtime h y \<longleftrightarrow>
     wsec x = wsec y \<and> wnsec x = wnsec y \<and> mono x = mono y
     \<and> map_option h (loc x) = map_option h (loc y)"
  by (cases x; cases y) simp

text \<open>
  On values without maps, deep equality is equality of what remains of the two values
  when every Location pointer is replaced by the Location it points to.
\<close>

lemma deep_mapfree:
  "mapfree a \<Longrightarrow> mapfree b \<Longrightarrow> deepValueEqual h a b \<longleftrightarrow> deref h a = deref h b"
  "mapfree_interface x \<Longrightarrow> mapfree_interface y \<Longrightarrow>
     deepInterfaceEqual h x y \<longleftrightarrow> deref_interface h x = deref_interface h y"
  "mapfree_elems xs \<Longrightarrow> mapfree_elems ys \<Longrightarrow>
     deepElemsEqual h xs ys \<longleftrightarrow> map (deref_interface h) xs = map (deref_interface h) ys"
  "mapfree_elems (map snd m1) \<Longrightarrow> mapfree_elems (map snd m2') \<Longrightarrow>
     deepEntriesEqual h m1 m2' \<longleftrightarrow>
       (\<forall>(k, d) \<in> set (deref_entries h m1). map_of (deref_entries h m2') k = Some d)"
  "mapfree_interface v1 \<Longrightarrow> mapfree_elems (map snd m2) \<Longrightarrow>
     deepMapIndexEqual h k v1 m2 \<longleftrightarrow>
       map_of (deref_entries h m2) k = Some (deref_interface h v1)"
proof (induction h a b and h x y and h xs ys and h m1 m2' and h k v1 m2
    rule: deepValueEqual_deepInterfaceEqual_deepElemsEqual_deepEntriesEqual_deepMapIndexEqual.induct)
  case (5 h x b)
  then show ?case
    by (cases b) (simp_all add: deref_def deepLocationEqual_iff map_gtime_eq_iff)
next
  case (6 h n x b)
  then show ?case by (cases b) (simp_all add: deref_def)
next
  case (7 h t xs b)
  then show ?case
    by (cases b; cases xs) (auto simp: deref_def deref_interface_def split: option.splits)
next
  case (8 h t es b)
  then show ?case by (cases b) (auto simp: deref_def deref_interface_def)
next
  case (11 h a y)
  then show ?case by (cases y) (simp_all add: deref_interface_def)
next
  case (13 h x xs ys)
  then show ?case by (cases ys) simp_all
qed (auto simp: deref_def deref_interface_def deref_entries_def split: gvalue.splits)

lemma DeepEqual_mapfree:
  "mapfree_interface x \<Longrightarrow> mapfree_interface y \<Longrightarrow>
     DeepEqual h x y \<longleftrightarrow> deref_interface h x = deref_interface h y"
  by (simp add: DeepEqual_def deep_mapfree)

section \<open>Properties of Contains and IsIn\<close>

lemma contains_scan_iff: "contains_scan h es v \<longleftrightarrow> (\<exists>e \<in> set es. DeepEqual h e v)"
  by (induction es) auto

text \<open>\<^verbatim>\<open>reflect.TypeOf\<close> never answers with an interface type.\<close>

lemma typeof_not_interface: "Type_Kind (typeof v) \<noteq> KInterface"
  by (induction v) auto

text \<open>The search of \<open>strings_Contains\<close> finds exactly the substrings.\<close>

lemma strings_Contains_iff: "strings_Contains s substr \<longleftrightarrow> (\<exists>p q. s = p @ substr @ q)"
proof (induction s)
  case Nil
  then show ?case by auto
next
  case (Cons c s)
  show ?case
  proof
    assume "strings_Contains (c # s) substr"
    then consider "prefix substr (c # s)" | "strings_Contains s substr" by auto
    then show "\<exists>p q. c # s = p @ substr @ q"
    proof cases
      case 1
      then obtain q where "c # s = substr @ q" by (auto simp: prefix_def)
      then have "c # s = [] @ substr @ q" by simp
      then show ?thesis by blast
    next
      case 2
      with Cons obtain p q where "s = p @ substr @ q" by blast
      then have "c # s = (c # p) @ substr @ q" by simp
      then show ?thesis by blast
    qed
  next
    assume "\<exists>p q. c # s = p @ substr @ q"
    then obtain p q where pq: "c # s = p @ substr @ q" by blast
    show "strings_Contains (c # s) substr"
    proof (cases p)
      case Nil
      with pq have "prefix substr (c # s)" by (simp add: prefix_def)
      then show ?thesis by simp
    next
      case (Cons a p')
      with pq have "s = p' @ substr @ q" by simp
      with Cons.IH have "strings_Contains s substr" by blast
      then show ?thesis by simp
    qed
  qed
qed

lemma contains_named:
  "containsChecker_Check h [Some (VNamed n c), v] names = containsChecker_Check h [Some c, v] names"
  by (simp add: containsChecker_Check_def Let_def split: option.splits)

lemma contains_payload:
  assumes "mapfree_elems es" and "mapfree x"
  shows "contains_scan h es (Some x) \<longleftrightarrow> (\<exists>e \<in> set es. deref_interface h e = Some (deref h x))"
  using assms(1)
proof (induction es)
  case Nil
  then show ?case by simp
next
  case (Cons e es)
  have "DeepEqual h e (Some x) \<longleftrightarrow> deref_interface h e = Some (deref h x)"
    using Cons.prems assms(2) DeepEqual_mapfree [of e "Some x" h]
    by (simp add: deref_interface_def)
  then show ?case using Cons by simp
qed

text \<open>
  Claim C2. For a container that is a slice or an array: when its element type is the
  dynamic type of the value, \<^verbatim>\<open>Contains.Check\<close> answers true exactly when some element of
  the container deep-equals the value, with no diagnostic; when the element type differs
  from the type of the value (the nil value included), it answers false with no
  diagnostic. The elements are those the slice or the array holds (a nil slice holds
  none), also under a named type. Where no map is involved, an element deep-equals the
  value exactly when the two are equal once every Location pointer in them is replaced
  by the Location it points to.
\<close>

theorem contains_slice_or_array:
  "((Type_Kind (typeof c) = KSlice \<or> Type_Kind (typeof c) = KArray)
      \<and> Type_Elem (typeof c) = reflect_TypeOf v \<longrightarrow>
        containsChecker_Check h [Some c, v] names
          = Inr (\<exists>e \<in> set (Value_elems c). DeepEqual h e v, ''''))
   \<and> ((Type_Kind (typeof c) = KSlice \<or> Type_Kind (typeof c) = KArray)
      \<and> Type_Elem (typeof c) \<noteq> reflect_TypeOf v \<longrightarrow>
        containsChecker_Check h [Some c, v] names = Inr (False, ''''))
   \<and> (mapfree_elems es \<and> mapfree x \<longrightarrow>
        containsChecker_Check h [Some (VSlice (typeof x) (Some es)), Some x] names
          = Inr (\<exists>e \<in> set es. deref_interface h e = Some (deref h x), '''')
        \<and> containsChecker_Check h [Some (VArray (typeof x) es), Some x] names
          = Inr (\<exists>e \<in> set es. deref_interface h e = Some (deref h x), ''''))
   \<and> containsChecker_Check h [Some (VSlice (typeof x) None), Some x] names = Inr (False, '''')
   \<and> containsChecker_Check h [Some (VNamed n c), v] names
       = containsChecker_Check h [Some c, v] names
   \<and> (mapfree_interface a \<and> mapfree_interface b \<longrightarrow>
        (DeepEqual h a b \<longleftrightarrow> deref_interface h a = deref_interface h b))"
proof -
  have general: "containsChecker_Check h [Some c, v] names
          = Inr (\<exists>e \<in> set (Value_elems c). DeepEqual h e v, '''')"
    if "Type_Kind (typeof c) = KSlice \<or> Type_Kind (typeof c) = KArray"
      and "Type_Elem (typeof c) = reflect_TypeOf v"
    using that by (auto simp: containsChecker_Check_def contains_scan_iff)
  have mismatch: "containsChecker_Check h [Some c, v] names = Inr (False, '''')"
    if "Type_Kind (typeof c) = KSlice \<or> Type_Kind (typeof c) = KArray"
      and "Type_Elem (typeof c) \<noteq> reflect_TypeOf v"
    using that by (auto simp: containsChecker_Check_def)
  have slice: "containsChecker_Check h [Some (VSlice (typeof x) (Some es)), Some x] names
          = Inr (\<exists>e \<in> set es. deref_interface h e = Some (deref h x), '''')"
    and array: "containsChecker_Check h [Some (VArray (typeof x) es), Some x] names
          = Inr (\<exists>e \<in> set es. deref_interface h e = Some (deref h x), '''')"
    if "mapfree_elems es" and "mapfree x"
    using contains_payload [OF that, of h]
    by (simp_all add: containsChecker_Check_def reflect_TypeOf_def)
  have nil: "containsChecker_Check h [Some (VSlice (typeof x) None), Some x] names
          = Inr (False, '''')"
    by (simp add: containsChecker_Check_def reflect_TypeOf_def)
  have deep: "DeepEqual h a b \<longleftrightarrow> deref_interface h a = deref_interface h b"
    if "mapfree_interface a" and "mapfree_interface b"
    using that by (rule DeepEqual_mapfree)
  show ?thesis
    using general mismatch slice array nil contains_named deep by blast
qed

text \<open>
  The slice \<^verbatim>\<open>[]int{1, 2, 3}\<close> searched for 2, for 4 and for the string "2"; then a slice
  and an array of one \<^verbatim>\<open>time.Time\<close> whose Location sits at address 1, searched for the same
  time with its Location at address 2, which holds an equal Location, and at address 0,
  which holds another.
\<close>

theorem contains_slice_or_array_witness:
  "containsChecker_Check sample_heap
       [Some (VSlice TInt (Some [Some (VInt 1), Some (VInt 2), Some (VInt 3)])), Some (VInt 2)] []
     = Inr (True, '''')
   \<and> containsChecker_Check sample_heap
       [Some (VSlice TInt (Some [Some (VInt 1), Some (VInt 2), Some (VInt 3)])), Some (VInt 4)] []
     = Inr (False, '''')
   \<and> containsChecker_Check sample_heap
       [Some (VSlice TInt (Some [Some (VInt 1), Some (VInt 2), Some (VInt 3)])), Some (VString ''2'')] []
     = Inr (False, '''')
   \<and> containsChecker_Check sample_heap
       [Some (VSlice TTime (Some [Some (VTime (Time 5 0 None (Some 1)))])),
        Some (VTime (Time 5 0 None (Some 2)))] []
     = Inr (True, '''')
   \<and> containsChecker_Check sample_heap
       [Some (VArray TTime [Some (VTime (Time 5 0 None (Some 1)))]),
        Some (VTime (Time 5 0 None (Some 2)))] []
     = Inr (True, '''')
   \<and> containsChecker_Check sample_heap
       [Some (VSlice TTime (Some [Some (VTime (Time 5 0 None (Some 1)))])),
        Some (VTime (Time 5 0 None (Some 0)))] []
     = Inr (False, '''')"
proof -
  let ?ints = "VSlice TInt (Some [Some (VInt 1), Some (VInt 2), Some (VInt 3)]) :: gval"
  let ?times = "[Some (VTime (Time 5 0 None (Some 1)))] :: gval option list"
  have k: "Type_Kind (typeof ?ints) = KSlice \<or> Type_Kind (typeof ?ints) = KArray" by simp
  have a: "containsChecker_Check sample_heap [Some ?ints, Some (VInt 2)] [] = Inr (True, '''')"
    using k contains_slice_or_array
      [where c = "?ints" and v = "Some (VInt 2)" and h = sample_heap and names = "[]"]
    by (simp add: reflect_TypeOf_def DeepEqual_def)
  have b: "containsChecker_Check sample_heap [Some ?ints, Some (VInt 4)] [] = Inr (False, '''')"
    using k contains_slice_or_array
      [where c = "?ints" and v = "Some (VInt 4)" and h = sample_heap and names = "[]"]
    by (simp add: reflect_TypeOf_def DeepEqual_def)
  have c: "containsChecker_Check sample_heap [Some ?ints, Some (VString ''2'')] []
             = Inr (False, '''')"
    using k contains_slice_or_array
      [where c = "?ints" and v = "Some (VString ''2'')" and h = sample_heap and names = "[]"]
    by (simp add: reflect_TypeOf_def)
  have m: "mapfree_elems ?times" by simp
  have d: "containsChecker_Check sample_heap
             [Some (VSlice TTime (Some ?times)), Some (VTime (Time 5 0 None (Some 2)))] []
             = Inr (True, '''')"
    and e: "containsChecker_Check sample_heap
             [Some (VArray TTime ?times), Some (VTime (Time 5 0 None (Some 2)))] []
             = Inr (True, '''')"
    using m contains_slice_or_array
      [where es = "?times" and x = "VTime (Time 5 0 None (Some 2))" and h = sample_heap
         and names = "[]"]
    by (simp_all add: deref_interface_def deref_def sample_heap_def)
  have f: "containsChecker_Check sample_heap
             [Some (VSlice TTime (Some ?times)), Some (VTime (Time 5 0 None (Some 0)))] []
             = Inr (False, '''')"
    using m contains_slice_or_array
      [where es = "?times" and x = "VTime (Time 5 0 None (Some 0))" and h = sample_heap
         and names = "[]"]
    by (simp add: deref_interface_def deref_def sample_heap_def utcLoc_def localLoc_def)
  from a b c d e f show ?thesis by blast
qed

text \<open>
  Claim C3. \<^verbatim>\<open>IsIn.Check\<close> on (value, container) returns the verdict and the diagnostic
  (or the panic) of \<^verbatim>\<open>Contains.Check\<close> on (container, value), whatever the two inputs are.
\<close>

theorem isIn_swaps_contains:
  "isInChecker_Check h [v, c] names = containsChecker_Check h [c, v] names"
  by (simp add: isInChecker_Check_def)

text \<open>
  Claim C8. On the string container \<^verbatim>\<open>"abc"\<close> and the value \<^verbatim>\<open>5\<close> of type \<^verbatim>\<open>int\<close> the
  diagnostic of \<^verbatim>\<open>Contains.Check\<close> reads "value should have type: int": it names the type
  that the value has, where the claim puts the type that the value should have
  (\<^verbatim>\<open>string\<close>).
\<close>

theorem contains_string_diagnostic_names_value_type:
  "containsChecker_Check h [Some (VString ''abc''), Some (VInt 5)] []
     = Inr (False, ''value should have type: int'')"
  by (simp add: containsChecker_Check_def reflect_TypeOf_def Sprint_Type_def)

text \<open>
  The rest of the string case: a value that is no string gets the diagnostic with the
  value's own type, and a string value is searched for as a substring.
\<close>

lemma contains_string_container:
  assumes "Type_Kind (typeof c) = KString"
  shows "containsChecker_Check h [Some c, Some v] names =
           (if Type_Kind (typeof v) \<noteq> KString
            then Inr (False, ''value should have type: '' @ Type_String (typeof v))
            else Inr (\<exists>p q. Value_String c = p @ Value_String v @ q, ''''))"
  using assms
  by (simp add: containsChecker_Check_def reflect_TypeOf_def Sprint_Type_def
      strings_Contains_iff)

text \<open>
  Claim C10. The element type that \<^verbatim>\<open>Contains.Check\<close> compares is the declared one: on a
  slice whose declared element type is an interface type and a value that is not nil, it
  answers false with no diagnostic, whatever the slice holds.
\<close>

theorem contains_interface_slice:
  assumes "Type_Kind (typeof c) = KSlice" and "Type_Elem (typeof c) = Some t"
    and "Type_Kind t = KInterface"
  shows "containsChecker_Check h [Some c, Some v] names = Inr (False, '''')"
proof -
  have "t \<noteq> typeof v" using assms(3) typeof_not_interface by auto
  then show ?thesis
    using assms by (simp add: containsChecker_Check_def reflect_TypeOf_def)
qed

text \<open>The slice \<^verbatim>\<open>[]interface{}{1, "a"}\<close> holds an element that deep-equals \<^verbatim>\<open>1\<close>.\<close>

theorem contains_interface_slice_witness:
  "Type_Kind (typeof (VSlice TInterface (Some [Some (VInt 1), Some (VString ''a'')]))) = KSlice
   \<and> Type_Elem (typeof (VSlice TInterface (Some [Some (VInt 1), Some (VString ''a'')]))) = Some TInterface
   \<and> Type_Kind TInterface = KInterface
   \<and> Some (VInt 1) \<in> set (Value_elems (VSlice TInterface (Some [Some (VInt 1), Some (VString ''a'')])))
   \<and> DeepEqual sample_heap (Some (VInt 1)) (Some (VInt 1))
   \<and> containsChecker_Check sample_heap
         [Some (VSlice TInterface (Some [Some (VInt 1), Some (VString ''a'')])), Some (VInt 1)] []
       = Inr (False, '''')"
proof -
  let ?c = "VSlice TInterface (Some [Some (VInt 1), Some (VString ''a'')]) :: gval"
  have h1: "Type_Kind (typeof ?c) = KSlice" by simp
  have h2: "Type_Elem (typeof ?c) = Some TInterface" by simp
  have h3: "Type_Kind TInterface = KInterface" by simp
  show ?thesis
    using h1 h2 h3
      contains_interface_slice
        [OF h1 h2 h3, where h = sample_heap and v = "VInt 1" and names = "[]"]
    by (simp add: DeepEqual_def)
qed

section \<open>Properties of SliceEquals and MapEquals\<close>

text \<open>
  Two lists of entries with distinct keys denote the same map exactly when they have
  the same length and every entry of the first is found in the second.
\<close>

lemma entries_eq_iff:
  assumes d1: "distinct (map fst m1)" and d2: "distinct (map fst m2)"
  shows "length m1 = length m2 \<and> (\<forall>(k, c) \<in> set m1. map_of m2 k = Some c)
           \<longleftrightarrow> map_of m1 = map_of m2"
proof
  assume "length m1 = length m2 \<and> (\<forall>(k, c) \<in> set m1. map_of m2 k = Some c)"
  then have len: "length m1 = length m2"
    and ent: "\<forall>(k, c) \<in> set m1. map_of m2 k = Some c"
    by simp_all
  have sub: "set (map fst m1) \<subseteq> set (map fst m2)"
  proof
    fix k
    assume "k \<in> set (map fst m1)"
    then obtain c where "(k, c) \<in> set m1" by auto
    with ent have "map_of m2 k = Some c" by auto
    then show "k \<in> set (map fst m2)" by (metis map_of_SomeD fst_conv image_eqI set_map)
  qed
  have "card (set (map fst m1)) = card (set (map fst m2))"
    using distinct_card [OF d1] distinct_card [OF d2] len by simp
  with sub have keys: "set (map fst m1) = set (map fst m2)"
    by (simp add: card_subset_eq)
  show "map_of m1 = map_of m2"
  proof
    fix k
    show "map_of m1 k = map_of m2 k"
    proof (cases "map_of m1 k")
      case None
      then have "k \<notin> set (map fst m1)" by (simp add: map_of_eq_None_iff)
      with keys have "k \<notin> set (map fst m2)" by simp
      then have "map_of m2 k = None" by (simp add: map_of_eq_None_iff)
      with None show ?thesis by simp
    next
      case (Some c)
      then have "(k, c) \<in> set m1" by (rule map_of_SomeD)
      with ent have "map_of m2 k = Some c" by auto
      with Some show ?thesis by simp
    qed
  qed
next
  assume eq: "map_of m1 = map_of m2"
  then have "dom (map_of m1) = dom (map_of m2)" by simp
  then have keys: "set (map fst m1) = set (map fst m2)" by (simp add: dom_map_of_conv_image_fst)
  have "length m1 = card (set (map fst m1))" using distinct_card [OF d1] by simp
  also have "\<dots> = card (set (map fst m2))" using keys by simp
  also have "\<dots> = length m2" using distinct_card [OF d2] by simp
  finally have len: "length m1 = length m2" .
  have "\<forall>(k, c) \<in> set m1. map_of m2 k = Some c"
    using d1 eq by (auto simp: map_of_eq_Some_iff [symmetric])
  with len show "length m1 = length m2 \<and> (\<forall>(k, c) \<in> set m1. map_of m2 k = Some c)"
    by simp
qed

lemma keys_deref_entries: "map fst (deref_entries h m) = map fst m"
  by (induction m) (auto simp: deref_entries_def)

lemma length_deref_entries: "length (deref_entries h m) = length m"
  by (simp add: deref_entries_def)

text \<open>Deep equality of two maps whose values hold no map.\<close>

lemma DeepEqual_maps:
  assumes "distinct (map fst m1)" and "distinct (map fst m2)"
    and "mapfree_elems (map snd m1)" and "mapfree_elems (map snd m2)"
  shows "DeepEqual h (Some (VMap k v (Some m1))) (Some (VMap k' v' (Some m2)))
           \<longleftrightarrow> k = k' \<and> v = v' \<and> map_of (deref_entries h m1) = map_of (deref_entries h m2)"
proof -
  have "length m1 = length m2 \<and> deepEntriesEqual h m1 m2
          \<longleftrightarrow> length (deref_entries h m1) = length (deref_entries h m2)
              \<and> (\<forall>(k, d) \<in> set (deref_entries h m1). map_of (deref_entries h m2) k = Some d)"
    using assms(3,4) by (simp add: deep_mapfree(4) length_deref_entries)
  also have "\<dots> \<longleftrightarrow> map_of (deref_entries h m1) = map_of (deref_entries h m2)"
    using assms(1,2) by (intro entries_eq_iff) (simp_all add: keys_deref_entries)
  finally show ?thesis by (auto simp: DeepEqual_def)
qed

lemma Value_Len_map_gvalue: "Value_Len (map_gvalue f x) = Value_Len x"
proof (induction x)
  case (VSlice t es)
  then show ?case by (cases es) simp_all
next
  case (VMap k v m)
  then show ?case by (cases m) simp_all
qed simp_all

lemma deref_eq_Value_Len: "deref h x = deref h y \<Longrightarrow> Value_Len x = Value_Len y"
  by (metis Value_Len_map_gvalue deref_def)

text \<open>
  Claim C9. \<^verbatim>\<open>SliceEquals.Check\<close> answers false with the diagnostic "Both arguments must
  be slices" when either argument is not of kind slice (the nil value included); on two
  slices it answers false with no diagnostic when their lengths differ, and otherwise the
  verdict of \<^verbatim>\<open>reflect.DeepEqual\<close> on the two, with no diagnostic. \<^verbatim>\<open>MapEquals.Check\<close>
  does the same for maps, with the diagnostic "Both arguments must be maps". What the
  deep equality is: two slices without maps inside are deeply equal exactly when they
  are equal once every Location pointer in them is replaced by the Location it points
  to; two maps whose values hold no map are deeply equal exactly when their key types
  and value types agree and they map the same keys to values that are equal in that
  way; a nil map is deeply equal to a nil map of its type only.
\<close>

theorem slice_and_map_equals:
  "((Value_Kind a \<noteq> KSlice \<or> Value_Kind b \<noteq> KSlice) \<longrightarrow>
       sliceEquals_Check h [a, b] names = Inr (False, ''Both arguments must be slices''))
   \<and> (Type_Kind (typeof x) = KSlice \<and> Type_Kind (typeof y) = KSlice \<longrightarrow>
       sliceEquals_Check h [Some x, Some y] names =
         (if Value_Len x \<noteq> Value_Len y then Inr (False, '''')
          else Inr (DeepEqual h (Some x) (Some y), '''')))
   \<and> ((Value_Kind a \<noteq> KMap \<or> Value_Kind b \<noteq> KMap) \<longrightarrow>
       mapEquals_Check h [a, b] names = Inr (False, ''Both arguments must be maps''))
   \<and> (Type_Kind (typeof x) = KMap \<and> Type_Kind (typeof y) = KMap \<longrightarrow>
       mapEquals_Check h [Some x, Some y] names =
         (if Value_Len x \<noteq> Value_Len y then Inr (False, '''')
          else Inr (DeepEqual h (Some x) (Some y), '''')))
   \<and> (Type_Kind (typeof x) = KSlice \<and> Type_Kind (typeof y) = KSlice
        \<and> mapfree x \<and> mapfree y \<longrightarrow>
       sliceEquals_Check h [Some x, Some y] names = Inr (deref h x = deref h y, ''''))
   \<and> (distinct (map fst m1) \<and> distinct (map fst m2)
        \<and> mapfree_elems (map snd m1) \<and> mapfree_elems (map snd m2) \<longrightarrow>
       mapEquals_Check h [Some (VMap k v (Some m1)), Some (VMap k' v' (Some m2))] names
         = Inr (k = k' \<and> v = v'
                \<and> map_of (deref_entries h m1) = map_of (deref_entries h m2), ''''))
   \<and> mapEquals_Check h [Some (VMap k v None), Some (VMap k' v' None)] names
       = Inr (k = k' \<and> v = v', '''')
   \<and> mapEquals_Check h [Some (VMap k v None), Some (VMap k' v' (Some m2))] names
       = Inr (False, '''')
   \<and> mapEquals_Check h [Some (VMap k v (Some m1)), Some (VMap k' v' None)] names
       = Inr (False, '''')"
proof -
  have c1: "sliceEquals_Check h [a, b] names = Inr (False, ''Both arguments must be slices'')"
    if "Value_Kind a \<noteq> KSlice \<or> Value_Kind b \<noteq> KSlice"
    using that by (auto simp: sliceEquals_Check_def)
  have c2: "sliceEquals_Check h [Some x, Some y] names =
         (if Value_Len x \<noteq> Value_Len y then Inr (False, '''')
          else Inr (DeepEqual h (Some x) (Some y), ''''))"
    if "Type_Kind (typeof x) = KSlice" and "Type_Kind (typeof y) = KSlice"
    using that by (simp add: sliceEquals_Check_def Value_Kind_def)
  have c3: "mapEquals_Check h [a, b] names = Inr (False, ''Both arguments must be maps'')"
    if "Value_Kind a \<noteq> KMap \<or> Value_Kind b \<noteq> KMap"
    using that by (auto simp: mapEquals_Check_def)
  have c4: "mapEquals_Check h [Some x, Some y] names =
         (if Value_Len x \<noteq> Value_Len y then Inr (False, '''')
          else Inr (DeepEqual h (Some x) (Some y), ''''))"
    if "Type_Kind (typeof x) = KMap" and "Type_Kind (typeof y) = KMap"
    using that by (simp add: mapEquals_Check_def Value_Kind_def)
  have c5: "sliceEquals_Check h [Some x, Some y] names = Inr (deref h x = deref h y, '''')"
    if k: "Type_Kind (typeof x) = KSlice" "Type_Kind (typeof y) = KSlice"
      and m: "mapfree x" "mapfree y"
  proof -
    have "DeepEqual h (Some x) (Some y) \<longleftrightarrow> deref h x = deref h y"
      using m DeepEqual_mapfree [of "Some x" "Some y" h] by (simp add: deref_interface_def)
    moreover have "deref h x \<noteq> deref h y" if "Value_Len x \<noteq> Value_Len y"
      using that deref_eq_Value_Len by blast
    ultimately show ?thesis using c2 [OF k] by auto
  qed
  have c6: "mapEquals_Check h [Some (VMap k v (Some m1)), Some (VMap k' v' (Some m2))] names
         = Inr (k = k' \<and> v = v'
                \<and> map_of (deref_entries h m1) = map_of (deref_entries h m2), '''')"
    if d: "distinct (map fst m1)" "distinct (map fst m2)"
      and m: "mapfree_elems (map snd m1)" "mapfree_elems (map snd m2)"
  proof -
    note deep = DeepEqual_maps [OF d m, of h k v k' v']
    have "map_of (deref_entries h m1) \<noteq> map_of (deref_entries h m2)"
      if "length m1 \<noteq> length m2"
      using that entries_eq_iff [of "deref_entries h m1" "deref_entries h m2"] d
      by (auto simp: keys_deref_entries length_deref_entries)
    then show ?thesis
      using deep by (auto simp: mapEquals_Check_def Value_Kind_def)
  qed
  have c7: "mapEquals_Check h [Some (VMap k v None), Some (VMap k' v' None)] names
       = Inr (k = k' \<and> v = v', '''')"
    and c8: "mapEquals_Check h [Some (VMap k v None), Some (VMap k' v' (Some m2))] names
       = Inr (False, '''')"
    and c9: "mapEquals_Check h [Some (VMap k v (Some m1)), Some (VMap k' v' None)] names
       = Inr (False, '''')"
    by (simp_all add: mapEquals_Check_def Value_Kind_def DeepEqual_def)
  show ?thesis
    using c1 c2 c3 c4 c5 c6 c7 c8 c9 by blast
qed

text \<open>
  The examples of the specification: \<^verbatim>\<open>[1,2]\<close> against \<^verbatim>\<open>[1,2]\<close> and against \<^verbatim>\<open>[2,1]\<close>, and
  the map \<^verbatim>\<open>{"a": 1}\<close> against itself; then two slices and two maps of different
  lengths, arguments of the wrong kind, a two-entry map against itself in another order,
  and one \<^verbatim>\<open>time.Time\<close> in a slice, once with its Location at address 1 and once at
  address 2, which holds an equal Location.
\<close>

theorem slice_and_map_equals_witness:
  "sliceEquals_Check sample_heap
       [Some (VSlice TInt (Some [Some (VInt 1), Some (VInt 2)])),
        Some (VSlice TInt (Some [Some (VInt 1), Some (VInt 2)]))] []
     = Inr (True, '''')
   \<and> sliceEquals_Check sample_heap
       [Some (VSlice TInt (Some [Some (VInt 1), Some (VInt 2)])),
        Some (VSlice TInt (Some [Some (VInt 2), Some (VInt 1)]))] []
     = Inr (False, '''')
   \<and> mapEquals_Check sample_heap
       [Some (VMap TString TInt (Some [(Some (VString ''a''), Some (VInt 1))])),
        Some (VMap TString TInt (Some [(Some (VString ''a''), Some (VInt 1))]))] []
     = Inr (True, '''')
   \<and> sliceEquals_Check sample_heap
       [Some (VSlice TInt (Some [Some (VInt 1), Some (VInt 2)])),
        Some (VSlice TInt (Some [Some (VInt 1)]))] []
     = Inr (False, '''')
   \<and> mapEquals_Check sample_heap
       [Some (VMap TString TInt (Some [(Some (VString ''a''), Some (VInt 1))])),
        Some (VMap TString TInt (Some []))] []
     = Inr (False, '''')
   \<and> sliceEquals_Check sample_heap
       [Some (VInt 3), Some (VSlice TInt (Some [Some (VInt 1), Some (VInt 2)]))] []
     = Inr (False, ''Both arguments must be slices'')
   \<and> mapEquals_Check sample_heap
       [Some (VInt 3), Some (VSlice TInt (Some [Some (VInt 1), Some (VInt 2)]))] []
     = Inr (False, ''Both arguments must be maps'')
   \<and> mapEquals_Check sample_heap
       [Some (VMap TString TInt
          (Some [(Some (VString ''a''), Some (VInt 1)), (Some (VString ''b''), Some (VInt 2))])),
        Some (VMap TString TInt
          (Some [(Some (VString ''b''), Some (VInt 2)), (Some (VString ''a''), Some (VInt 1))]))] []
     = Inr (True, '''')
   \<and> sliceEquals_Check sample_heap
       [Some (VSlice TTime (Some [Some (VTime (Time 5 0 None (Some 1)))])),
        Some (VSlice TTime (Some [Some (VTime (Time 5 0 None (Some 2)))]))] []
     = Inr (True, '''')"
proof -
  let ?up = "VSlice TInt (Some [Some (VInt 1), Some (VInt 2)]) :: gval"
  let ?down = "VSlice TInt (Some [Some (VInt 2), Some (VInt 1)]) :: gval"
  let ?one = "VSlice TInt (Some [Some (VInt 1)]) :: gval"
  let ?ea = "[(Some (VString ''a''), Some (VInt 1))] :: (gval option \<times> gval option) list"
  let ?eab = "[(Some (VString ''a''), Some (VInt 1)), (Some (VString ''b''), Some (VInt 2))]
                :: (gval option \<times> gval option) list"
  let ?eba = "[(Some (VString ''b''), Some (VInt 2)), (Some (VString ''a''), Some (VInt 1))]
                :: (gval option \<times> gval option) list"
  let ?ta = "VSlice TTime (Some [Some (VTime (Time 5 0 None (Some 1)))]) :: gval"
  let ?tb = "VSlice TTime (Some [Some (VTime (Time 5 0 None (Some 2)))]) :: gval"
  note T = slice_and_map_equals [where h = sample_heap and names = "[]"]
  note slice_kind = T [THEN conjunct1, rule_format]
  note slice_len = T [THEN conjunct2, THEN conjunct1, rule_format]
  note map_kind = T [THEN conjunct2, THEN conjunct2, THEN conjunct1, rule_format]
  note map_len = T [THEN conjunct2, THEN conjunct2, THEN conjunct2, THEN conjunct1, rule_format]
  note slice_deep =
    T [THEN conjunct2, THEN conjunct2, THEN conjunct2, THEN conjunct2, THEN conjunct1,
       rule_format]
  note map_deep =
    T [THEN conjunct2, THEN conjunct2, THEN conjunct2, THEN conjunct2, THEN conjunct2,
       THEN conjunct1, rule_format]
  have a: "sliceEquals_Check sample_heap [Some ?up, Some ?up] [] = Inr (True, [])"
    using slice_deep [of "?up" "?up"] by simp
  have b: "sliceEquals_Check sample_heap [Some ?up, Some ?down] [] = Inr (False, [])"
    using slice_deep [of "?up" "?down"] by (simp add: deref_def)
  have c: "mapEquals_Check sample_heap
             [Some (VMap TString TInt (Some ?ea)), Some (VMap TString TInt (Some ?ea))] []
             = Inr (True, [])"
    using map_deep [of "?ea" "?ea" TString TInt TString TInt] by simp
  have d: "sliceEquals_Check sample_heap [Some ?up, Some ?one] [] = Inr (False, [])"
    using slice_len [of "?up" "?one"] by simp
  have e: "mapEquals_Check sample_heap
             [Some (VMap TString TInt (Some ?ea)), Some (VMap TString TInt (Some []))] []
             = Inr (False, [])"
    using map_len [of "VMap TString TInt (Some ?ea)" "VMap TString TInt (Some [])"] by simp
  have f: "sliceEquals_Check sample_heap [Some (VInt 3), Some ?up] []
             = Inr (False, ''Both arguments must be slices'')"
    using slice_kind [of "Some (VInt 3)" "Some ?up"] by (simp add: Value_Kind_def)
  have g: "mapEquals_Check sample_heap [Some (VInt 3), Some ?up] []
             = Inr (False, ''Both arguments must be maps'')"
    using map_kind [of "Some (VInt 3)" "Some ?up"] by (simp add: Value_Kind_def)
  have i: "mapEquals_Check sample_heap
             [Some (VMap TString TInt (Some ?eab)), Some (VMap TString TInt (Some ?eba))] []
             = Inr (True, [])"
    using map_deep [of "?eab" "?eba" TString TInt TString TInt]
    by (simp add: deref_entries_def fun_eq_iff)
  have j: "sliceEquals_Check sample_heap [Some ?ta, Some ?tb] [] = Inr (True, [])"
    using slice_deep [of "?ta" "?tb"] by (simp add: deref_def sample_heap_def)
  from a b c d e f g i j show ?thesis by blast
qed

section \<open>Properties of the checkers of time.go\<close>

text \<open>
  Claim C6. On two durations \<^verbatim>\<open>DurationLessThan.Check\<close> answers whether the obtained
  count of nanoseconds is strictly less than the expected one, with no diagnostic; when
  the obtained argument, or else the expected one, is no \<^verbatim>\<open>time.Duration\<close>, it answers
  false with a diagnostic that names \<^verbatim>\<open>time.Duration\<close>.
\<close>

theorem durationLessThan_strict:
  "durationLessThanChecker_Check
       [Some (VNamed ''time.Duration'' (VInt64 ob)), Some (VNamed ''time.Duration'' (VInt64 ex))]
       names
     = Inr (ob < ex, '''')
   \<and> (assert_Duration a = None \<longrightarrow>
        durationLessThanChecker_Check [a, b] names
          = Inr (False, ''obtained value type must be time.Duration''))
   \<and> (assert_Duration a \<noteq> None \<and> assert_Duration b = None \<longrightarrow>
        durationLessThanChecker_Check [a, b] names
          = Inr (False, ''expected value type must be time.Duration''))"
  by (auto simp: durationLessThanChecker_Check_def Nanoseconds_def)

text \<open>
  The examples of the specification, 5ms against 10ms, 10ms against 5ms and 5ms against
  itself; then an \<^verbatim>\<open>int64\<close> in the place of either duration.
\<close>

theorem durationLessThan_strict_witness:
  "durationLessThanChecker_Check
       [Some (VNamed ''time.Duration'' (VInt64 5000000)),
        Some (VNamed ''time.Duration'' (VInt64 10000000))] []
     = Inr (True, '''')
   \<and> durationLessThanChecker_Check
       [Some (VNamed ''time.Duration'' (VInt64 10000000)),
        Some (VNamed ''time.Duration'' (VInt64 5000000))] []
     = Inr (False, '''')
   \<and> durationLessThanChecker_Check
       [Some (VNamed ''time.Duration'' (VInt64 5000000)),
        Some (VNamed ''time.Duration'' (VInt64 5000000))] []
     = Inr (False, '''')
   \<and> assert_Duration (Some (VInt64 5)) = None
   \<and> durationLessThanChecker_Check [Some (VInt64 5), Some (VNamed ''time.Duration'' (VInt64 7))] []
       = Inr (False, ''obtained value type must be time.Duration'')
   \<and> durationLessThanChecker_Check [Some (VNamed ''time.Duration'' (VInt64 7)), Some (VInt64 5)] []
       = Inr (False, ''expected value type must be time.Duration'')"
  using durationLessThan_strict
    [where ob = 5000000 and ex = 10000000 and a = "Some (VInt64 5)"
       and b = "Some (VNamed ''time.Duration'' (VInt64 7))" and names = "[]"]
    durationLessThan_strict
    [where ob = 10000000 and ex = 5000000 and b = "Some (VInt64 5)"
       and a = "Some (VNamed ''time.Duration'' (VInt64 7))" and names = "[]"]
    durationLessThan_strict [where ob = 5000000 and ex = 5000000 and names = "[]"]
  by simp

lemma After_Before: "After t u \<longleftrightarrow> Before u t"
  by (auto simp: After_def Before_def split: option.splits)

lemma Before_asym: "Before t u \<Longrightarrow> \<not> Before u t"
  by (auto simp: Before_def split: option.splits)

lemma Before_irrefl: "\<not> Before t t"
  by (auto simp: Before_def split: option.splits)

lemma TimeBetween_ordered: "\<not> Before (end' (TimeBetween s e)) (start (TimeBetween s e))"
  by (auto simp: TimeBetween_def dest: Before_asym)

text \<open>
  Claim C5. When \<open>t1\<close> is after \<open>t2\<close>, \<^verbatim>\<open>TimeBetween(t1, t2)\<close> has \<open>t2\<close> as its lower
  bound and \<open>t1\<close> as its upper bound. On a time, \<^verbatim>\<open>Check\<close> answers true exactly when the
  time is neither before the lower bound nor after the upper bound. On a checker that
  \<^verbatim>\<open>TimeBetween\<close> built, the lower bound itself and the upper bound itself both pass.
\<close>

theorem timeBetween_bounds:
  "(After t1 t2 \<longrightarrow> TimeBetween t1 t2 = \<lparr>start = t2, end' = t1\<rparr>)
   \<and> (\<exists>d. timeBetweenChecker_Check goString ck [Some (VTime w)] names
            = Inr (\<not> Before w (start ck) \<and> \<not> After w (end' ck), d))
   \<and> timeBetweenChecker_Check goString (TimeBetween s e)
         [Some (VTime (start (TimeBetween s e)))] names = Inr (True, '''')
   \<and> timeBetweenChecker_Check goString (TimeBetween s e)
         [Some (VTime (end' (TimeBetween s e)))] names = Inr (True, '''')"
proof -
  have a: "After t1 t2 \<longrightarrow> TimeBetween t1 t2 = \<lparr>start = t2, end' = t1\<rparr>"
    by (simp add: TimeBetween_def After_Before)
  have b: "\<exists>d. timeBetweenChecker_Check goString ck [Some (VTime w)] names
            = Inr (\<not> Before w (start ck) \<and> \<not> After w (end' ck), d)"
    by (simp add: timeBetweenChecker_Check_def)
  have c: "timeBetweenChecker_Check goString (TimeBetween s e)
         [Some (VTime (start (TimeBetween s e)))] names = Inr (True, '''')"
    using TimeBetween_ordered [of s e]
    by (simp add: timeBetweenChecker_Check_def Before_irrefl After_Before)
  have d: "timeBetweenChecker_Check goString (TimeBetween s e)
         [Some (VTime (end' (TimeBetween s e)))] names = Inr (True, '''')"
    using TimeBetween_ordered [of s e]
    by (simp add: timeBetweenChecker_Check_def Before_irrefl After_Before)
  from a b c d show ?thesis by blast
qed


text \<open>
  The time at second 10 given first and the time at second 5 given second: the checker
  has second 5 as its lower bound. A time at second 7 passes, a time at second 11 does
  not.
\<close>

theorem timeBetween_bounds_witness:
  "After (Time 10 0 None None) (Time 5 0 None None)
   \<and> TimeBetween (Time 10 0 None None) (Time 5 0 None None)
       = \<lparr>start = Time 5 0 None None, end' = Time 10 0 None None\<rparr>
   \<and> (\<exists>d. timeBetweenChecker_Check (\<lambda>t. '''')
            (TimeBetween (Time 10 0 None None) (Time 5 0 None None))
            [Some (VTime (Time 7 0 None None))] [] = Inr (True, d))
   \<and> (\<exists>d. timeBetweenChecker_Check (\<lambda>t. '''')
            (TimeBetween (Time 10 0 None None) (Time 5 0 None None))
            [Some (VTime (Time 11 0 None None))] [] = Inr (False, d))"
  using timeBetween_bounds
    [where ?t1.0 = "Time 10 0 None None" and ?t2.0 = "Time 5 0 None None"
       and goString = "\<lambda>t. ''''"
       and ck = "TimeBetween (Time 10 0 None None) (Time 5 0 None None)"
       and w = "Time 7 0 None None" and names = "[]"]
    timeBetween_bounds
    [where goString = "\<lambda>t. ''''"
       and ck = "TimeBetween (Time 10 0 None None) (Time 5 0 None None)"
       and w = "Time 11 0 None None" and names = "[]"]
  by (simp add: After_def Before_def TimeBetween_def)

section \<open>Properties of IsSorted\<close>

lemma wrap64_id: "- (2 ^ 63) \<le> x \<Longrightarrow> x < 2 ^ 63 \<Longrightarrow> wrap64 x = x"
  by (simp add: wrap64_def)

text \<open>
  From index \<open>i\<close> on, the loop answers true exactly when no later pair is out of order,
  and then with no diagnostic.
\<close>

lemma isSorted_loop_verdict:
  assumes "wrap64 (Len c - 1) = n"
  shows "\<exists>d. isSorted_loop c i = Inr ((\<forall>j. i \<le> j \<and> j < n \<longrightarrow> \<not> Less c (j + 1) j), d)
             \<and> ((\<forall>j. i \<le> j \<and> j < n \<longrightarrow> \<not> Less c (j + 1) j) \<longrightarrow> d = '''')"
proof (induction "nat (n - i)" arbitrary: i)
  case 0
  then have ge: "\<not> i < n" by simp
  then have "isSorted_loop c i = Inr (True, '''')"
    using assms by (simp add: isSorted_loop.simps)
  moreover have "\<forall>j. i \<le> j \<and> j < n \<longrightarrow> \<not> Less c (j + 1) j"
    using ge by auto
  ultimately show ?case by simp
next
  case (Suc m)
  then have lt: "i < n" by linarith
  show ?case
  proof (cases "Less c (i + 1) i")
    case True
    then have "\<not> (\<forall>j. i \<le> j \<and> j < n \<longrightarrow> \<not> Less c (j + 1) j)" using lt by auto
    then show ?thesis using True lt assms by (simp add: isSorted_loop.simps)
  next
    case False
    from Suc have "m = nat (n - (i + 1))" by linarith
    from Suc.hyps(1) [OF this] obtain d where
      d: "isSorted_loop c (i + 1) = Inr ((\<forall>j. i + 1 \<le> j \<and> j < n \<longrightarrow> \<not> Less c (j + 1) j), d)"
         "(\<forall>j. i + 1 \<le> j \<and> j < n \<longrightarrow> \<not> Less c (j + 1) j) \<longrightarrow> d = ''''"
      by blast
    have "(\<forall>j. i \<le> j \<and> j < n \<longrightarrow> \<not> Less c (j + 1) j)
          \<longleftrightarrow> (\<forall>j. i + 1 \<le> j \<and> j < n \<longrightarrow> \<not> Less c (j + 1) j)"
    proof -
      have "\<And>j. i \<le> j \<longleftrightarrow> j = i \<or> i + 1 \<le> j" by linarith
      then show ?thesis using False by auto
    qed
    moreover have "isSorted_loop c i = isSorted_loop c (i + 1)"
      using False lt assms by (subst isSorted_loop.simps) simp
    ultimately show ?thesis using d by simp
  qed
qed

text \<open>The loop stops at the first pair that is out of order and reports its upper index.\<close>

lemma isSorted_loop_first:
  assumes "wrap64 (Len c - 1) = n" and "k < n" and "Less c (k + 1) k"
    and "i \<le> k" and "\<forall>j. i \<le> j \<and> j < k \<longrightarrow> \<not> Less c (j + 1) j"
  shows "isSorted_loop c i
           = Inr (False, ''value is not ordered at index '' @ Sprint_int (k + 1))"
  using assms(4,5)
proof (induction "nat (k - i)" arbitrary: i)
  case 0
  then have "i = k" by simp
  then show ?case using assms(1-3) by (subst isSorted_loop.simps) simp
next
  case (Suc m)
  then have lt: "i < k" by linarith
  then have nl: "\<not> Less c (i + 1) i" using Suc.prems by simp
  have step: "isSorted_loop c i = isSorted_loop c (i + 1)"
    using nl lt assms(1,2) by (subst isSorted_loop.simps) simp
  have "m = nat (k - (i + 1))" using Suc.hyps(2) by linarith
  moreover have "i + 1 \<le> k" using lt by simp
  moreover have "\<forall>j. i + 1 \<le> j \<and> j < k \<longrightarrow> \<not> Less c (j + 1) j" using Suc.prems by simp
  ultimately show ?case using Suc.hyps(1) step by simp
qed

text \<open>
  Claim C4. Let the value implement \<^verbatim>\<open>sort.Interface\<close> with a length that is a 64-bit
  integer other than the least one. Then \<^verbatim>\<open>IsSorted.Check\<close> answers true exactly when no
  index \<open>i\<close> from 0 to the length minus 2 has element \<open>i + 1\<close> less than element \<open>i\<close>, and
  then with no diagnostic; at the first such pair it answers false with the diagnostic
  "value is not ordered at index" followed by \<open>i + 1\<close>; and a container of length 0 or 1
  always passes.
\<close>

theorem isSorted_adjacent_pairs:
  assumes "methods v = Some c" and "- (2 ^ 63) < Len c" and "Len c < 2 ^ 63"
  shows "(\<exists>d. isSorted_Check methods [Some v] names
             = Inr ((\<forall>i. 0 \<le> i \<and> i \<le> Len c - 2 \<longrightarrow> \<not> Less c (i + 1) i), d)
             \<and> ((\<forall>i. 0 \<le> i \<and> i \<le> Len c - 2 \<longrightarrow> \<not> Less c (i + 1) i) \<longrightarrow> d = ''''))
       \<and> (\<forall>k. 0 \<le> k \<and> k \<le> Len c - 2 \<and> Less c (k + 1) k
               \<and> (\<forall>j. 0 \<le> j \<and> j < k \<longrightarrow> \<not> Less c (j + 1) j)
             \<longrightarrow> isSorted_Check methods [Some v] names
                   = Inr (False, ''value is not ordered at index '' @ Sprint_int (k + 1)))
       \<and> (Len c \<le> 1 \<longrightarrow> isSorted_Check methods [Some v] names = Inr (True, ''''))"
proof -
  have w: "wrap64 (Len c - 1) = Len c - 1"
    using assms(2,3) by (intro wrap64_id) auto
  have chk: "isSorted_Check methods [Some v] names = isSorted_loop c 0"
    using assms(1) by (simp add: isSorted_Check_def)
  have r: "\<And>i. i \<le> Len c - 2 \<longleftrightarrow> i < Len c - 1" by linarith
  have a: "\<exists>d. isSorted_Check methods [Some v] names
             = Inr ((\<forall>i. 0 \<le> i \<and> i \<le> Len c - 2 \<longrightarrow> \<not> Less c (i + 1) i), d)
             \<and> ((\<forall>i. 0 \<le> i \<and> i \<le> Len c - 2 \<longrightarrow> \<not> Less c (i + 1) i) \<longrightarrow> d = '''')"
    using isSorted_loop_verdict [OF w, of 0] by (simp add: chk r)
  have b: "\<forall>k. 0 \<le> k \<and> k \<le> Len c - 2 \<and> Less c (k + 1) k
               \<and> (\<forall>j. 0 \<le> j \<and> j < k \<longrightarrow> \<not> Less c (j + 1) j)
             \<longrightarrow> isSorted_Check methods [Some v] names
                   = Inr (False, ''value is not ordered at index '' @ Sprint_int (k + 1))"
    using isSorted_loop_first [OF w] by (simp add: chk r)
  have c: "Len c \<le> 1 \<longrightarrow> isSorted_Check methods [Some v] names = Inr (True, '''')"
    using w by (simp add: chk isSorted_loop.simps)
  from a b c show ?thesis by blast
qed

text \<open>\<^verbatim>\<open>sort.IntSlice{1, 3, 2}\<close>, \<^verbatim>\<open>sort.IntSlice{1, 2, 2, 5}\<close> and the nil \<^verbatim>\<open>sort.IntSlice\<close>.\<close>

theorem isSorted_adjacent_pairs_witness:
  "isSorted_Check IntSlice_methods
       [Some (VNamed ''sort.IntSlice'' (VSlice TInt (Some [Some (VInt 1), Some (VInt 3), Some (VInt 2)])))] []
     = Inr (False, ''value is not ordered at index 2'')
   \<and> isSorted_Check IntSlice_methods
       [Some (VNamed ''sort.IntSlice''
          (VSlice TInt (Some [Some (VInt 1), Some (VInt 2), Some (VInt 2), Some (VInt 5)])))] []
     = Inr (True, '''')
   \<and> isSorted_Check IntSlice_methods [Some (VNamed ''sort.IntSlice'' (VSlice TInt None))] []
     = Inr (True, '''')"
proof -
  let ?v1 = "VNamed ''sort.IntSlice'' (VSlice TInt (Some [Some (VInt 1), Some (VInt 3), Some (VInt 2)]))"
  let ?v2 = "VNamed ''sort.IntSlice''
          (VSlice TInt (Some [Some (VInt 1), Some (VInt 2), Some (VInt 2), Some (VInt 5)]))"
  let ?v3 = "VNamed ''sort.IntSlice'' (VSlice TInt None)"
  have m1: "IntSlice_methods ?v1 = Some (IntSlice_Interface [1, 3, 2])" by simp
  have m2: "IntSlice_methods ?v2 = Some (IntSlice_Interface [1, 2, 2, 5])" by simp
  have m3: "IntSlice_methods ?v3 = Some (IntSlice_Interface [])" by simp
  have l1: "- (2 ^ 63) < Len (IntSlice_Interface [1, 3, 2])"
    and l2: "- (2 ^ 63) < Len (IntSlice_Interface [1, 2, 2, 5])"
    and l3: "- (2 ^ 63) < Len (IntSlice_Interface [])"
    by (simp_all add: IntSlice_Interface_def)
  have u1: "Len (IntSlice_Interface [1, 3, 2]) < 2 ^ 63"
    and u2: "Len (IntSlice_Interface [1, 2, 2, 5]) < 2 ^ 63"
    and u3: "Len (IntSlice_Interface []) < 2 ^ 63"
    by (simp_all add: IntSlice_Interface_def)
  note t1 = isSorted_adjacent_pairs
      [where methods = IntSlice_methods and v = "?v1" and names = "[]", OF m1 l1 u1]
  note t2 = isSorted_adjacent_pairs
      [where methods = IntSlice_methods and v = "?v2" and names = "[]", OF m2 l2 u2]
  note t3 = isSorted_adjacent_pairs
      [where methods = IntSlice_methods and v = "?v3" and names = "[]", OF m3 l3 u3]
  have a: "isSorted_Check IntSlice_methods [Some ?v1] []
     = Inr (False, ''value is not ordered at index 2'')"
  proof -
    have j0: "\<And>j::int. 0 \<le> j \<and> j < 1 \<longleftrightarrow> j = 0" by linarith
    have "isSorted_Check IntSlice_methods [Some ?v1] []
            = Inr (False, ''value is not ordered at index '' @ Sprint_int (1 + 1))"
      by (rule t1 [THEN conjunct2, THEN conjunct1, rule_format, of 1])
         (simp add: IntSlice_Interface_def j0)
    then show ?thesis by (simp add: Sprint_int_def itoa.simps digit_def)
  qed
  have b: "isSorted_Check IntSlice_methods [Some ?v2] [] = Inr (True, '''')"
  proof -
    have p: "\<forall>i. 0 \<le> i \<and> i \<le> Len (IntSlice_Interface [1, 2, 2, 5]) - 2
               \<longrightarrow> \<not> Less (IntSlice_Interface [1, 2, 2, 5]) (i + 1) i"
    proof (intro allI impI)
      fix i :: int
      assume "0 \<le> i \<and> i \<le> Len (IntSlice_Interface [1, 2, 2, 5]) - 2"
      then have "0 \<le> i \<and> i \<le> 2" by (simp add: IntSlice_Interface_def)
      then have "i = 0 \<or> i = 1 \<or> i = 2" by linarith
      then show "\<not> Less (IntSlice_Interface [1, 2, 2, 5]) (i + 1) i"
        by (auto simp: IntSlice_Interface_def)
    qed
    from t2 [THEN conjunct1] p show ?thesis by auto
  qed
  have c: "isSorted_Check IntSlice_methods [Some ?v3] [] = Inr (True, '''')"
    by (rule t3 [THEN conjunct2, THEN conjunct2, rule_format])
       (simp add: IntSlice_Interface_def)
  from a b c show ?thesis by blast
qed

section \<open>Properties of SameContent\<close>

lemma Value_Len_slice: "Type_Kind (typeof a) = KSlice \<Longrightarrow> Value_Len a = length (Value_elems a)"
proof (induction a)
  case (VSlice t es)
  then show ?case by (cases es) simp_all
qed simp_all

subsection \<open>The counting maps\<close>

lemma sameContent_loop_counts:
  assumes "length xs = length ys" and "hashable_elems xs" and "hashable_elems ys"
  shows "sameContent_loop xs ys m1 m2 = Inr (foldl map_incr m1 xs, foldl map_incr m2 ys)"
  using assms by (induction xs ys arbitrary: m1 m2 rule: list_induct2) simp_all

lemma map_of_map_incr:
  "map_of (map_incr m k) = (map_of m)(k \<mapsto> (case map_of m k of None \<Rightarrow> 1 | Some c \<Rightarrow> c + 1))"
  by (induction m k rule: map_incr.induct) (auto simp: fun_eq_iff)

lemma keys_map_incr: "fst ` set (map_incr m k) = insert k (fst ` set m)"
  by (induction m k rule: map_incr.induct) auto

lemma in_map_incr_key: "(a, b) \<in> set (map_incr m k) \<Longrightarrow> a = k \<or> a \<in> fst ` set m"
proof -
  assume "(a, b) \<in> set (map_incr m k)"
  then have "a \<in> fst ` set (map_incr m k)" by force
  then show ?thesis by (simp add: keys_map_incr)
qed

lemma distinct_map_incr: "distinct (map fst m) \<Longrightarrow> distinct (map fst (map_incr m k))"
  by (induction m k rule: map_incr.induct) (auto dest: in_map_incr_key)

lemma distinct_counts: "distinct (map fst m) \<Longrightarrow> distinct (map fst (foldl map_incr m xs))"
  by (induction xs arbitrary: m) (simp_all add: distinct_map_incr)

lemma map_of_counts:
  "map_of (foldl map_incr m xs) k =
     (if count_list xs k = 0 then map_of m k
      else Some ((case map_of m k of None \<Rightarrow> 0 | Some c \<Rightarrow> c) + int (count_list xs k)))"
proof (induction xs arbitrary: m)
  case Nil
  then show ?case by simp
next
  case (Cons x xs)
  show ?case
    by (simp add: Cons.IH map_of_map_incr split: option.splits)
qed

lemma map_of_counts_empty:
  "map_of (foldl map_incr [] xs) k =
     (if count_list xs k = 0 then None else Some (int (count_list xs k)))"
  by (simp add: map_of_counts)

lemma counts_eq_iff:
  "map_of (foldl map_incr [] xs) = map_of (foldl map_incr [] ys)
     \<longleftrightarrow> (\<forall>k. count_list xs k = count_list ys k)"
proof
  assume eq: "map_of (foldl map_incr [] xs) = map_of (foldl map_incr [] ys)"
  show "\<forall>k. count_list xs k = count_list ys k"
  proof
    fix k
    from eq have "map_of (foldl map_incr [] xs) k = map_of (foldl map_incr [] ys) k" by simp
    then show "count_list xs k = count_list ys k"
      by (simp add: map_of_counts_empty split: if_splits)
  qed
next
  assume "\<forall>k. count_list xs k = count_list ys k"
  then show "map_of (foldl map_incr [] xs) = map_of (foldl map_incr [] ys)"
    by (simp add: fun_eq_iff map_of_counts_empty)
qed

subsection \<open>Deep equality of two counting maps\<close>

lemma deepMapIndexEqual_counts:
  "deepMapIndexEqual h k (Some (VInt c)) (map (\<lambda>(k, c). (k, Some (VInt c))) m2)
     \<longleftrightarrow> map_of m2 k = Some c"
  by (induction m2) auto

lemma deepEntriesEqual_counts:
  "deepEntriesEqual h (map (\<lambda>(k, c). (k, Some (VInt c))) m1) (map (\<lambda>(k, c). (k, Some (VInt c))) m2)
     \<longleftrightarrow> (\<forall>(k, c) \<in> set m1. map_of m2 k = Some c)"
  by (induction m1) (auto simp: deepMapIndexEqual_counts)

lemma DeepEqual_counts:
  "DeepEqual h (counts_value m1) (counts_value m2)
     \<longleftrightarrow> length m1 = length m2 \<and> (\<forall>(k, c) \<in> set m1. map_of m2 k = Some c)"
  by (simp add: DeepEqual_def counts_value_def deepEntriesEqual_counts)

lemma DeepEqual_counts_distinct:
  assumes "distinct (map fst m1)" and "distinct (map fst m2)"
  shows "DeepEqual h (counts_value m1) (counts_value m2) \<longleftrightarrow> map_of m1 = map_of m2"
  using entries_eq_iff [OF assms] by (simp add: DeepEqual_counts)

lemma count_list_eq_mset: "(\<forall>k. count_list xs k = count_list ys k) \<longleftrightarrow> mset xs = mset ys"
  by (simp add: multiset_eq_iff count_mset)

text \<open>
  Claim C1, as amended. Let \<open>a\<close> and \<open>b\<close> be two slices of one slice type. When their
  lengths differ, \<^verbatim>\<open>SameContent.Check\<close> answers false with no diagnostic. When their lengths
  agree and every element of both can be hashed as a map key, it answers, with no
  diagnostic, true exactly when every element occurs as often in \<open>a\<close> as in \<open>b\<close>,
  which is equality of the two multisets. An element can be hashed when the value itself
  allows it, whatever its type promises: it is no slice and no map, also under a named
  type, and when it is an array, the element type of the array is comparable and every
  value the array holds can be hashed in turn, the values behind elements of interface
  type included. Two elements are the same key when \<^verbatim>\<open>==\<close> holds of them, which for two
  times compares the Location pointers and not the Locations.
\<close>

theorem sameContent_multiset:
  assumes "Type_Kind (typeof a) = KSlice" and "typeof b = typeof a"
  shows "(Value_Len a \<noteq> Value_Len b \<longrightarrow>
            sameContent_Check h [Some a, Some b] names = Inr (False, ''''))
       \<and> (Value_Len a = Value_Len b \<and> hashable_elems (Value_elems a)
            \<and> hashable_elems (Value_elems b) \<longrightarrow>
            sameContent_Check h [Some a, Some b] names
              = Inr ((\<forall>k. count_list (Value_elems a) k = count_list (Value_elems b) k), '''')
            \<and> ((\<forall>k. count_list (Value_elems a) k = count_list (Value_elems b) k)
                 \<longleftrightarrow> mset (Value_elems a) = mset (Value_elems b)))"
proof -
  have kb: "Type_Kind (typeof b) = KSlice" using assms by simp
  have differ: "sameContent_Check h [Some a, Some b] names = Inr (False, '''')"
    if "Value_Len a \<noteq> Value_Len b"
    using that assms kb by (simp add: sameContent_Check_def Let_def)
  have agree: "sameContent_Check h [Some a, Some b] names
                 = Inr ((\<forall>k. count_list (Value_elems a) k = count_list (Value_elems b) k), '''')"
    if len: "Value_Len a = Value_Len b" and ha: "hashable_elems (Value_elems a)"
      and hb: "hashable_elems (Value_elems b)"
  proof -
    have "length (Value_elems b) = length (Value_elems a)"
      using len assms(1) kb by (simp add: Value_Len_slice)
    then have loop: "sameContent_loop (Value_elems b) (Value_elems a) [] []
                 = Inr (foldl map_incr [] (Value_elems b), foldl map_incr [] (Value_elems a))"
      using hb ha by (rule sameContent_loop_counts)
    have "DeepEqual h (counts_value (foldl map_incr [] (Value_elems a)))
                    (counts_value (foldl map_incr [] (Value_elems b)))
            \<longleftrightarrow> (\<forall>k. count_list (Value_elems a) k = count_list (Value_elems b) k)"
      by (simp add: DeepEqual_counts_distinct distinct_counts counts_eq_iff)
    then show ?thesis
      using len assms kb loop by (simp add: sameContent_Check_def Let_def)
  qed
  show ?thesis
    using differ agree count_list_eq_mset by blast
qed

text \<open>
  The examples of the specification: \<^verbatim>\<open>[1,2,3]\<close> against \<^verbatim>\<open>[3,1,2]\<close>, \<^verbatim>\<open>[1,2,2,3]\<close> against
  \<^verbatim>\<open>[1,2,3,3]\<close>, and two slices of different lengths; then one time in a slice, once with
  its Location at address 1 and once at address 2: two keys, though address 2 holds an
  equal Location.
\<close>

theorem sameContent_multiset_witness:
  "sameContent_Check sample_heap
       [Some (VSlice TInt (Some [Some (VInt 1), Some (VInt 2), Some (VInt 3)])),
        Some (VSlice TInt (Some [Some (VInt 3), Some (VInt 1), Some (VInt 2)]))] []
     = Inr (True, '''')
   \<and> sameContent_Check sample_heap
       [Some (VSlice TInt (Some [Some (VInt 1), Some (VInt 2), Some (VInt 2), Some (VInt 3)])),
        Some (VSlice TInt (Some [Some (VInt 1), Some (VInt 2), Some (VInt 3), Some (VInt 3)]))] []
     = Inr (False, '''')
   \<and> sameContent_Check sample_heap
       [Some (VSlice TInt (Some [Some (VInt 1), Some (VInt 2), Some (VInt 3)])),
        Some (VSlice TInt (Some [Some (VInt 1), Some (VInt 2)]))] []
     = Inr (False, '''')
   \<and> sameContent_Check sample_heap
       [Some (VSlice TTime (Some [Some (VTime (Time 5 0 None (Some 1)))])),
        Some (VSlice TTime (Some [Some (VTime (Time 5 0 None (Some 2)))]))] []
     = Inr (False, '''')"
proof -
  let ?ia = "VSlice TInt (Some [Some (VInt 1), Some (VInt 2), Some (VInt 3)]) :: gval"
  let ?ib = "VSlice TInt (Some [Some (VInt 3), Some (VInt 1), Some (VInt 2)]) :: gval"
  let ?ja = "VSlice TInt (Some [Some (VInt 1), Some (VInt 2), Some (VInt 2), Some (VInt 3)]) :: gval"
  let ?jb = "VSlice TInt (Some [Some (VInt 1), Some (VInt 2), Some (VInt 3), Some (VInt 3)]) :: gval"
  let ?short = "VSlice TInt (Some [Some (VInt 1), Some (VInt 2)]) :: gval"
  let ?ta = "VSlice TTime (Some [Some (VTime (Time 5 0 None (Some 1)))]) :: gval"
  let ?tb = "VSlice TTime (Some [Some (VTime (Time 5 0 None (Some 2)))]) :: gval"
  have ki: "Type_Kind (typeof ?ia) = KSlice" and kj: "Type_Kind (typeof ?ja) = KSlice"
    and kt: "Type_Kind (typeof ?ta) = KSlice"
    by simp_all
  have ti: "typeof ?ib = typeof ?ia" and tj: "typeof ?jb = typeof ?ja"
    and ts: "typeof ?short = typeof ?ia" and tt: "typeof ?tb = typeof ?ta"
    by simp_all
  have "mset (Value_elems ?ia) = mset (Value_elems ?ib)" by simp
  then have a: "sameContent_Check sample_heap [Some ?ia, Some ?ib] [] = Inr (True, '''')"
    using sameContent_multiset [OF ki ti, where h = sample_heap and names = "[]"] by simp
  have "mset (Value_elems ?ja) \<noteq> mset (Value_elems ?jb)" by simp
  then have b: "sameContent_Check sample_heap [Some ?ja, Some ?jb] [] = Inr (False, '''')"
    using sameContent_multiset [OF kj tj, where h = sample_heap and names = "[]"] by simp
  have c: "sameContent_Check sample_heap [Some ?ia, Some ?short] [] = Inr (False, '''')"
    using sameContent_multiset [OF ki ts, where h = sample_heap and names = "[]"] by simp
  have "mset (Value_elems ?ta) \<noteq> mset (Value_elems ?tb)" by simp
  then have d: "sameContent_Check sample_heap [Some ?ta, Some ?tb] [] = Inr (False, '''')"
    using sameContent_multiset [OF kt tt, where h = sample_heap and names = "[]"] by simp
  from a b c d show ?thesis by blast
qed

text \<open>
  Two equal slices of type \<^verbatim>\<open>[][]int\<close>, each holding the one element \<^verbatim>\<open>[]int{1}\<close>: storing
  the element as a map key panics, and the check returns no verdict.
\<close>

theorem sameContent_unhashable_counterexample:
  "sameContent_Check sample_heap
       [Some (VSlice (TSlice TInt) (Some [Some (VSlice TInt (Some [Some (VInt 1)]))])),
        Some (VSlice (TSlice TInt) (Some [Some (VSlice TInt (Some [Some (VInt 1)]))]))] []
     = Inl UnhashableType"
  by (simp add: sameContent_Check_def)

section \<open>Arguments of the wrong kind or type\<close>













subsection \<open>Returning without a panic\<close>













end
